theory Spec2Isabelle
  imports Main "HOL-Library.Word"
begin

unbundle bit_operations_syntax

section \<open>Machine types, constants and failures\<close>

type_synonym uint8_t = "8 word"
type_synonym uint16_t = "16 word"

text \<open>
  Everything that makes a C++ call leave its normal path is a value of \<open>error\<close>:
  \<^item> \<open>OutOfRange\<close>: \<open>std::out_of_range\<close>, thrown by \<open>std::array::at\<close>,
    \<open>std::bitset::set\<close> and \<open>std::bitset::test\<close> on an index beyond the size;
  \<^item> \<open>NullMemberCall\<close>: a call through a null pointer to member function
    (undefined behaviour);
  \<^item> \<open>SignedOverflow\<close>: an \<open>int\<close> operation whose result is not representable
    (undefined behaviour).
\<close>

datatype error = OutOfRange | NullMemberCall | SignedOverflow

definition RESET_VECTOR_LOW_BYTE :: uint16_t where
  "RESET_VECTOR_LOW_BYTE = 0xFFFC"

definition CPU_RAM_ADDRESS_MASK :: uint16_t where
  "CPU_RAM_ADDRESS_MASK = 0x07FF"

definition CPU_RAM_MAX_RANGE :: uint16_t where
  "CPU_RAM_MAX_RANGE = 0x1FFF"

definition STACK_POINTER_DEFAULT :: uint8_t where
  "STACK_POINTER_DEFAULT = 0xFF"

definition NEWLINE :: char where
  "NEWLINE = CHR 0x0A"

definition BITS_PER_BYTE :: nat where
  "BITS_PER_BYTE = 8"

definition CPU_RAM_SIZE :: nat where
  "CPU_RAM_SIZE = 0x0800"

text \<open>The \<open>int\<close> of the source is taken to be 32 bits wide.\<close>

definition INT_MIN :: int where
  "INT_MIN = - (2 ^ 31)"

definition INT_MAX :: int where
  "INT_MAX = 2 ^ 31 - 1"

definition int_result :: "int \<Rightarrow> error + int" where
  "int_result n = (if INT_MIN \<le> n \<and> n \<le> INT_MAX then Inr n else Inl SignedOverflow)"

section \<open>The CPU bus\<close>

text \<open>
  \<open>std::array<uint8_t, CPU_RAM_SIZE>\<close> has exactly \<open>CPU_RAM_SIZE\<close> elements: it is a
  function on indices, and \<open>at\<close> checks the index against the size as the library does.
  \<open>array_at\<close> is \<open>ram_.at(i)\<close> read, \<open>array_at_assign\<close> is \<open>ram_.at(i) = v\<close>.
\<close>

type_synonym ram = "nat \<Rightarrow> uint8_t"

definition array_at :: "ram \<Rightarrow> nat \<Rightarrow> error + uint8_t" where
  "array_at arr i = (if i < CPU_RAM_SIZE then Inr (arr i) else Inl OutOfRange)"

definition array_at_assign :: "ram \<Rightarrow> nat \<Rightarrow> uint8_t \<Rightarrow> error + ram" where
  "array_at_assign arr i v = (if i < CPU_RAM_SIZE then Inr (arr(i := v)) else Inl OutOfRange)"

text \<open>
  The state of a \<open>CPUBus\<close>: its member \<open>ram_\<close>, and the characters the bus has written
  to \<open>std::cerr\<close> so far (the diagnostic channel).
\<close>

record CPUBus =
  ram_' :: ram
  cerr :: string

definition CPUBus_new :: CPUBus where
  "CPUBus_new = \<lparr>ram_' = (\<lambda>_. 0), cerr = []\<rparr>"

definition invalid_address_message :: string where
  "invalid_address_message =
     ''Error: Invalid address provided Address should be between 0x0000 - 0xFFFF.''"

definition log_invalid_address :: "CPUBus \<Rightarrow> CPUBus" where
  "log_invalid_address bus = bus\<lparr>cerr := cerr bus @ invalid_address_message @ [NEWLINE]\<rparr>"

definition CPUBus_Read :: "uint16_t \<Rightarrow> CPUBus \<Rightarrow> error + (uint8_t \<times> CPUBus)" where
  "CPUBus_Read address bus =
     (if 0x0000 \<le> address \<and> address \<le> CPU_RAM_MAX_RANGE then
        (case array_at (ram_' bus) (unat (address AND CPU_RAM_ADDRESS_MASK)) of
           Inl e \<Rightarrow> Inl e
         | Inr v \<Rightarrow> Inr (v, bus))
      else Inr (0, log_invalid_address bus))"

text \<open>
  \<open>Write\<close> has no \<open>return\<close> in its RAM branch and no \<open>else\<close>: the write to
  \<open>std::cerr\<close> follows the \<open>if\<close> statement on every path.
\<close>

definition CPUBus_Write :: "uint16_t \<Rightarrow> uint8_t \<Rightarrow> CPUBus \<Rightarrow> error + CPUBus" where
  "CPUBus_Write address data bus =
     (case (if 0x0000 \<le> address \<and> address \<le> CPU_RAM_MAX_RANGE then
              (case array_at_assign (ram_' bus) (unat (address AND CPU_RAM_ADDRESS_MASK)) data of
                 Inl e \<Rightarrow> Inl e
               | Inr r \<Rightarrow> Inr (bus\<lparr>ram_' := r\<rparr>))
            else Inr bus) of
        Inl e \<Rightarrow> Inl e
      | Inr bus1 \<Rightarrow> Inr (log_invalid_address bus1))"

section \<open>The bus interface\<close>

text \<open>
  The abstract class \<open>Bus\<close> has two pure virtual member functions. An implementation
  with state \<open>'b\<close> is the pair of its two functions; the CPU holds a pointer to the
  bus, so the bus state is passed to each CPU operation and returned by it.
\<close>

record 'b Bus =
  Bus_Read :: "uint16_t \<Rightarrow> 'b \<Rightarrow> error + (uint8_t \<times> 'b)"
  Bus_Write :: "uint16_t \<Rightarrow> uint8_t \<Rightarrow> 'b \<Rightarrow> error + 'b"

definition CPUBus_as_Bus :: "CPUBus Bus" where
  "CPUBus_as_Bus = \<lparr>Bus_Read = CPUBus_Read, Bus_Write = CPUBus_Write\<rparr>"

section \<open>The status register\<close>

datatype AddressingMode = Immediate

datatype CPUStatusFlag = Negative | Overflow | Decimal | InterruptDisable | Zero | Carry

text \<open>The enumerators' values: the bit position of each flag.\<close>

fun CPUStatusFlag_value :: "CPUStatusFlag \<Rightarrow> nat" where
  "CPUStatusFlag_value Negative = 7"
| "CPUStatusFlag_value Overflow = 6"
| "CPUStatusFlag_value Decimal = 3"
| "CPUStatusFlag_value InterruptDisable = 2"
| "CPUStatusFlag_value Zero = 1"
| "CPUStatusFlag_value Carry = 0"

text \<open>
  \<open>std::bitset<8>\<close>: eight bits, bit \<open>i\<close> at index \<open>i\<close>. \<open>set\<close> and \<open>test\<close> throw
  \<open>std::out_of_range\<close> on a position that is not below 8; the constructor from a value
  keeps its low eight bits; \<open>to_ulong\<close> is the number whose binary digits the bits are.
\<close>

type_synonym bitset8 = "nat \<Rightarrow> bool"

definition bitset8_set :: "bitset8 \<Rightarrow> nat \<Rightarrow> bool \<Rightarrow> error + bitset8" where
  "bitset8_set bs pos v = (if pos < 8 then Inr (bs(pos := v)) else Inl OutOfRange)"

definition bitset8_test :: "bitset8 \<Rightarrow> nat \<Rightarrow> error + bool" where
  "bitset8_test bs pos = (if pos < 8 then Inr (bs pos) else Inl OutOfRange)"

definition bitset8_of_value :: "nat \<Rightarrow> bitset8" where
  "bitset8_of_value n = (\<lambda>i. i < 8 \<and> bit n i)"

definition bitset8_to_ulong :: "bitset8 \<Rightarrow> nat" where
  "bitset8_to_ulong bs = horner_sum of_bool 2 (map bs [0..<8])"

text \<open>
  A \<open>std::bitset<8>\<close> has no bit at a position from 8 on. The representing function
  has a value there, and \<open>bitset8_valid\<close> is the invariant that it is \<open>False\<close>: the
  bitsets that stand for a \<open>std::bitset<8>\<close> are the valid ones.
\<close>

definition bitset8_valid :: "bitset8 \<Rightarrow> bool" where
  "bitset8_valid bs = (\<forall>i. 8 \<le> i \<longrightarrow> \<not> bs i)"

record CPUStatus =
  flags :: bitset8

definition CPUStatus_new :: CPUStatus where
  "CPUStatus_new = \<lparr>flags = (\<lambda>_. False)\<rparr>"

definition CPUStatus_Set :: "CPUStatusFlag \<Rightarrow> bool \<Rightarrow> CPUStatus \<Rightarrow> error + CPUStatus" where
  "CPUStatus_Set flag v p =
     (case bitset8_set (flags p) (CPUStatusFlag_value flag) v of
        Inl e \<Rightarrow> Inl e
      | Inr bs \<Rightarrow> Inr (p\<lparr>flags := bs\<rparr>))"

definition CPUStatus_Get :: "CPUStatusFlag \<Rightarrow> CPUStatus \<Rightarrow> error + bool" where
  "CPUStatus_Get flag p = bitset8_test (flags p) (CPUStatusFlag_value flag)"

definition CPUStatus_FromByte :: "uint8_t \<Rightarrow> CPUStatus \<Rightarrow> CPUStatus" where
  "CPUStatus_FromByte v p = p\<lparr>flags := bitset8_of_value (unat v)\<rparr>"

definition CPUStatus_ToByte :: "CPUStatus \<Rightarrow> uint8_t" where
  "CPUStatus_ToByte p = of_nat (bitset8_to_ulong (flags p))"

section \<open>The CPU\<close>

text \<open>
  A pointer to member function of type \<open>void (CPU::*)()\<close> is either null or the address
  of one of the member functions of that type; \<open>LDA\<close> is the only one.
\<close>

datatype operation_ptr = LDA_ptr

record OpcodeEntry =
  addressingMode :: AddressingMode
  operation :: "operation_ptr option"
  cycleCount :: int

text \<open>
  A value-initialised \<open>OpcodeEntry\<close> (what \<open>operator[]\<close> of the map inserts for a key it
  does not hold): every member zero, that is the enumerator with value 0, the null
  pointer and 0.
\<close>

definition OpcodeEntry_value_initialized :: OpcodeEntry where
  "OpcodeEntry_value_initialized =
     \<lparr>addressingMode = Immediate, operation = None, cycleCount = 0\<rparr>"

record CPU =
  a_' :: uint8_t
  x_' :: uint8_t
  y_' :: uint8_t
  pc_' :: uint16_t
  s_' :: uint8_t
  p_' :: CPUStatus
  opcode_' :: uint8_t
  operand_' :: uint8_t
  remaining_cycles_' :: int
  operations_' :: "uint8_t \<rightharpoonup> OpcodeEntry"

text \<open>
  \<open>operations_[key]\<close>: \<open>std::unordered_map::operator[]\<close> returns the entry of the key,
  after inserting a value-initialised one when the key has none.
\<close>

definition operations_subscript :: "uint8_t \<Rightarrow> CPU \<Rightarrow> OpcodeEntry \<times> CPU" where
  "operations_subscript key cpu =
     (case operations_' cpu key of
        Some entry \<Rightarrow> (entry, cpu)
      | None \<Rightarrow> (OpcodeEntry_value_initialized,
                 cpu\<lparr>operations_' := (operations_' cpu)(key \<mapsto> OpcodeEntry_value_initialized)\<rparr>))"

definition LoadOperations :: "CPU \<Rightarrow> CPU" where
  "LoadOperations cpu =
     cpu\<lparr>operations_' :=
       [0xA9 \<mapsto> \<lparr>addressingMode = Immediate, operation = Some LDA_ptr, cycleCount = 2\<rparr>]\<rparr>"

text \<open>
  The constructor: the default member initialisers, then \<open>LoadOperations\<close>. The bus
  pointer it binds (and asserts to be non-null) is the bus argument of the operations
  below.
\<close>

definition CPU_CPU :: CPU where
  "CPU_CPU = LoadOperations
     \<lparr>a_' = 0x00, x_' = 0x00, y_' = 0x00, pc_' = 0x0000, s_' = 0xFF, p_' = CPUStatus_new,
      opcode_' = 0x00, operand_' = 0x00, remaining_cycles_' = 0, operations_' = Map.empty\<rparr>"

definition CPU_Read :: "'b Bus \<Rightarrow> uint16_t \<Rightarrow> 'b \<Rightarrow> error + (uint8_t \<times> 'b)" where
  "CPU_Read bus address b = Bus_Read bus address b"

text \<open>
  \<open>FetchOperand\<close>: the \<open>switch\<close> has the one case \<open>Immediate\<close>, which reads at
  \<open>pc_++\<close>. The statements after the \<open>switch\<close> are reached for no enumerator.
\<close>

fun FetchOperand :: "'b Bus \<Rightarrow> AddressingMode \<Rightarrow> CPU \<Rightarrow> 'b \<Rightarrow> error + (uint8_t \<times> CPU \<times> 'b)" where
  "FetchOperand bus Immediate cpu b =
     (case CPU_Read bus (pc_' cpu) b of
        Inl e \<Rightarrow> Inl e
      | Inr (v, b') \<Rightarrow> Inr (v, cpu\<lparr>pc_' := pc_' cpu + 1\<rparr>, b'))"

definition LDA :: "CPU \<Rightarrow> error + CPU" where
  "LDA cpu =
     (let cpu1 = cpu\<lparr>a_' := operand_' cpu\<rparr> in
      case CPUStatus_Set Negative ((a_' cpu1 AND 0x80) \<noteq> 0x00) (p_' cpu1) of
        Inl e \<Rightarrow> Inl e
      | Inr p1 \<Rightarrow>
          (case CPUStatus_Set Zero (a_' cpu1 = 0x00) p1 of
             Inl e \<Rightarrow> Inl e
           | Inr p2 \<Rightarrow> Inr (cpu1\<lparr>p_' := p2\<rparr>)))"

text \<open>\<open>(this->*ptr)()\<close>: the call through a pointer to member function.\<close>

fun call_operation :: "operation_ptr option \<Rightarrow> CPU \<Rightarrow> error + CPU" where
  "call_operation None cpu = Inl NullMemberCall"
| "call_operation (Some LDA_ptr) cpu = LDA cpu"

definition Clock :: "'b Bus \<Rightarrow> CPU \<Rightarrow> 'b \<Rightarrow> error + (CPU \<times> 'b)" where
  "Clock bus cpu b =
     (if remaining_cycles_' cpu = 0 then
        (case CPU_Read bus (pc_' cpu) b of
           Inl e \<Rightarrow> Inl e
         | Inr (opc, b1) \<Rightarrow>
             (let cpu1 = cpu\<lparr>pc_' := pc_' cpu + 1, opcode_' := opc\<rparr>;
                  (opcodeEntry, cpu2) = operations_subscript (opcode_' cpu1) cpu1
              in case FetchOperand bus (addressingMode opcodeEntry) cpu2 b1 of
                   Inl e \<Rightarrow> Inl e
                 | Inr (v, cpu3, b2) \<Rightarrow>
                     (case call_operation (operation opcodeEntry) (cpu3\<lparr>operand_' := v\<rparr>) of
                        Inl e \<Rightarrow> Inl e
                      | Inr cpu4 \<Rightarrow>
                          (case int_result (remaining_cycles_' cpu4 + cycleCount opcodeEntry) of
                             Inl e \<Rightarrow> Inl e
                           | Inr r \<Rightarrow>
                               (case int_result (r - 1) of
                                  Inl e \<Rightarrow> Inl e
                                | Inr r' \<Rightarrow> Inr (cpu4\<lparr>remaining_cycles_' := r'\<rparr>, b2))))))
      else
        (case int_result (remaining_cycles_' cpu - 1) of
           Inl e \<Rightarrow> Inl e
         | Inr r' \<Rightarrow> Inr (cpu\<lparr>remaining_cycles_' := r'\<rparr>, b)))"

definition Reset :: "'b Bus \<Rightarrow> CPU \<Rightarrow> 'b \<Rightarrow> error + (CPU \<times> 'b)" where
  "Reset bus cpu b =
     (let cpu1 = cpu\<lparr>a_' := 0x00, x_' := 0x00, y_' := 0x00, s_' := STACK_POINTER_DEFAULT,
                     p_' := CPUStatus_FromByte 0x00 (p_' cpu)\<rparr>
      in case CPU_Read bus RESET_VECTOR_LOW_BYTE b of
           Inl e \<Rightarrow> Inl e
         | Inr (pc_lo, b1) \<Rightarrow>
             (case CPU_Read bus (RESET_VECTOR_LOW_BYTE + 1) b1 of
                Inl e \<Rightarrow> Inl e
              | Inr (pc_hi, b2) \<Rightarrow>
                  (let cpu2 = cpu1\<lparr>pc_' :=
                         word_of_int (push_bit BITS_PER_BYTE (uint pc_hi) OR uint pc_lo)\<rparr>
                   in case int_result (remaining_cycles_' cpu2 + 7) of
                        Inl e \<Rightarrow> Inl e
                      | Inr r \<Rightarrow> Inr (cpu2\<lparr>remaining_cycles_' := r\<rparr>, b2))))"

text \<open>The host's loop: \<open>n\<close> calls of \<open>Clock\<close> in a row, stopping at the first failure.\<close>

fun Clock_times :: "nat \<Rightarrow> 'b Bus \<Rightarrow> CPU \<Rightarrow> 'b \<Rightarrow> error + (CPU \<times> 'b)" where
  "Clock_times 0 bus cpu b = Inr (cpu, b)"
| "Clock_times (Suc n) bus cpu b =
     (case Clock bus cpu b of
        Inl e \<Rightarrow> Inl e
      | Inr (cpu', b') \<Rightarrow> Clock_times n bus cpu' b')"

section \<open>A program in RAM\<close>

text \<open>
  The scenario used to run the CPU on the bus: \<open>LDA #$01\<close> at address 0x0000 and
  \<open>LDA #$02\<close> at address 0x0002, and the CPU as its first \<open>Clock\<close> call leaves it.
\<close>

definition lda_program :: CPUBus where
  "lda_program =
     \<lparr>ram_' = (\<lambda>_. 0)(0 := 0xA9, 1 := 0x01, 2 := 0xA9, 3 := 0x02), cerr = []\<rparr>"

definition lda_program_cpu1 :: CPU where
  "lda_program_cpu1 =
     CPU_CPU\<lparr>a_' := 0x01, pc_' := 0x0002, opcode_' := 0xA9, operand_' := 0x01,
             remaining_cycles_' := 1\<rparr>"

section \<open>Properties of the bus\<close>

lemma ram_index_in_bounds: "unat (address AND CPU_RAM_ADDRESS_MASK) < CPU_RAM_SIZE"
proof -
  have "address AND CPU_RAM_ADDRESS_MASK \<le> CPU_RAM_ADDRESS_MASK"
    by (rule word_and_le1)
  then have "unat (address AND CPU_RAM_ADDRESS_MASK) \<le> unat CPU_RAM_ADDRESS_MASK"
    by (simp add: word_le_nat_alt)
  then show ?thesis
    by (simp add: CPU_RAM_ADDRESS_MASK_def CPU_RAM_SIZE_def)
qed

lemma CPUBus_Read_in_window:
  "address \<le> CPU_RAM_MAX_RANGE \<Longrightarrow>
   CPUBus_Read address bus = Inr (ram_' bus (unat (address AND CPU_RAM_ADDRESS_MASK)), bus)"
  by (simp add: CPUBus_Read_def array_at_def ram_index_in_bounds)

lemma CPUBus_Read_outside_window:
  "\<not> address \<le> CPU_RAM_MAX_RANGE \<Longrightarrow>
   CPUBus_Read address bus = Inr (0, log_invalid_address bus)"
  by (simp add: CPUBus_Read_def)

lemma CPUBus_Write_in_window:
  "address \<le> CPU_RAM_MAX_RANGE \<Longrightarrow>
   CPUBus_Write address data bus =
     Inr (log_invalid_address
            (bus\<lparr>ram_' := (ram_' bus)(unat (address AND CPU_RAM_ADDRESS_MASK) := data)\<rparr>))"
  by (simp add: CPUBus_Write_def array_at_assign_def ram_index_in_bounds)

lemma CPUBus_Write_outside_window:
  "\<not> address \<le> CPU_RAM_MAX_RANGE \<Longrightarrow>
   CPUBus_Write address data bus = Inr (log_invalid_address bus)"
  by (simp add: CPUBus_Write_def)

lemma ram_log_invalid_address [simp]: "ram_' (log_invalid_address bus) = ram_' bus"
  by (simp add: log_invalid_address_def)

text \<open>
  Claim C2 (mirroring). For every logical address \<open>a\<close> in the window
  \<open>0x0000 .. 0x1FFF\<close> and every byte \<open>v\<close>, a \<open>Write\<close> of \<open>v\<close> at \<open>a\<close> succeeds, and
  a following \<open>Read\<close> at any address \<open>a'\<close> of the window that agrees with \<open>a\<close> on the
  low 11 bits returns \<open>v\<close> (and leaves the bus as the write left it): all addresses of
  the 8 KiB window with the same low 11 bits alias one backing byte.
\<close>

theorem CPUBus_mirroring:
  assumes "a \<le> 0x1FFF" and "a' \<le> 0x1FFF" and "a' AND 0x07FF = a AND 0x07FF"
  shows "\<exists>bus'. CPUBus_Write a v bus = Inr bus' \<and> CPUBus_Read a' bus' = Inr (v, bus')"
  using assms
  by (simp add: CPUBus_Write_in_window CPUBus_Read_in_window
      CPU_RAM_MAX_RANGE_def CPU_RAM_ADDRESS_MASK_def)

theorem CPUBus_mirroring_witness:
  "(0x0801 :: uint16_t) \<le> 0x1FFF \<and> (0x1801 :: uint16_t) \<le> 0x1FFF
   \<and> (0x1801 :: uint16_t) AND 0x07FF = 0x0801 AND 0x07FF
   \<and> (\<exists>bus'. CPUBus_Write 0x0801 0x5A CPUBus_new = Inr bus'
        \<and> CPUBus_Read 0x1801 bus' = Inr (0x5A, bus'))"
proof -
  have h1: "(0x0801 :: uint16_t) \<le> 0x1FFF" by simp
  have h2: "(0x1801 :: uint16_t) \<le> 0x1FFF" by simp
  have h3: "(0x1801 :: uint16_t) AND 0x07FF = 0x0801 AND 0x07FF" by simp
  from CPUBus_mirroring [OF h1 h2 h3, of "0x5A" CPUBus_new] h1 h2 h3
  show ?thesis by blast
qed

lemma outside_window: "0x2000 \<le> a \<Longrightarrow> \<not> a \<le> CPU_RAM_MAX_RANGE"
  by (simp add: CPU_RAM_MAX_RANGE_def word_le_nat_alt)

text \<open>
  Claim C6 (addresses outside every declared region). For every address in
  \<open>0x2000 .. 0xFFFF\<close>: \<open>Read\<close> returns the safe default 0 and \<open>Write\<close> leaves the
  RAM as it was; each reports the condition by one line on the diagnostic channel,
  and neither fails (both return normally, \<open>Inr\<close>).
\<close>

theorem CPUBus_unmapped_address:
  assumes "0x2000 \<le> a"
  shows "CPUBus_Read a bus =
           Inr (0, bus\<lparr>cerr := cerr bus @ invalid_address_message @ [NEWLINE]\<rparr>)
       \<and> CPUBus_Write a v bus =
           Inr (bus\<lparr>cerr := cerr bus @ invalid_address_message @ [NEWLINE]\<rparr>)"
  using outside_window [OF assms]
  by (simp add: CPUBus_Read_outside_window CPUBus_Write_outside_window log_invalid_address_def)

theorem CPUBus_unmapped_address_witness:
  "(0x2000 :: uint16_t) \<le> 0xFFFC
   \<and> CPUBus_Read 0xFFFC CPUBus_new =
        Inr (0, \<lparr>ram_' = (\<lambda>_. 0), cerr = invalid_address_message @ [NEWLINE]\<rparr>)
   \<and> CPUBus_Write 0xFFFC 0x34 CPUBus_new =
        Inr \<lparr>ram_' = (\<lambda>_. 0), cerr = invalid_address_message @ [NEWLINE]\<rparr>"
proof -
  have h: "(0x2000 :: uint16_t) \<le> 0xFFFC" by simp
  from CPUBus_unmapped_address [OF h, of CPUBus_new "0x34"] h
  show ?thesis by (simp add: CPUBus_new_def)
qed

text \<open>
  Claim C7 (exactly one of: serve the address from RAM, report an invalid address).
  The claim fails for \<open>Write\<close>: on a freshly constructed bus, \<open>Write(0x0000, 0x01)\<close>
  stores the byte in RAM and also writes the invalid-address line to the diagnostic
  channel, although the address lies inside the RAM window.
\<close>

theorem CPUBus_Write_serves_and_reports:
  "CPUBus_Write 0x0000 0x01 CPUBus_new =
     Inr \<lparr>ram_' = (\<lambda>_. 0)(0 := 0x01), cerr = invalid_address_message @ [NEWLINE]\<rparr>"
  by (simp add: CPUBus_Write_in_window CPU_RAM_MAX_RANGE_def CPU_RAM_ADDRESS_MASK_def
      log_invalid_address_def CPUBus_new_def)

text \<open>
  Claim C9 (no access outside the backing array). For every 16-bit address the
  physical index \<open>address & 0x07FF\<close> is below \<open>CPU_RAM_SIZE\<close>, so the bounds-checked
  \<open>at\<close> succeeds for reading and for assignment, and \<open>Read\<close> and \<open>Write\<close> return
  normally for every address and every bus state.
\<close>

theorem CPUBus_access_total:
  "unat (a AND CPU_RAM_ADDRESS_MASK) < CPU_RAM_SIZE
   \<and> array_at (ram_' bus) (unat (a AND CPU_RAM_ADDRESS_MASK))
       = Inr (ram_' bus (unat (a AND CPU_RAM_ADDRESS_MASK)))
   \<and> array_at_assign (ram_' bus) (unat (a AND CPU_RAM_ADDRESS_MASK)) v
       = Inr ((ram_' bus)(unat (a AND CPU_RAM_ADDRESS_MASK) := v))
   \<and> (\<exists>r. CPUBus_Read a bus = Inr r)
   \<and> (\<exists>bus'. CPUBus_Write a v bus = Inr bus')"
proof -
  have "\<exists>r. CPUBus_Read a bus = Inr r"
    by (cases "a \<le> CPU_RAM_MAX_RANGE")
       (simp_all add: CPUBus_Read_in_window CPUBus_Read_outside_window)
  moreover have "\<exists>bus'. CPUBus_Write a v bus = Inr bus'"
    by (cases "a \<le> CPU_RAM_MAX_RANGE")
       (simp_all add: CPUBus_Write_in_window CPUBus_Write_outside_window)
  ultimately show ?thesis
    by (simp add: array_at_def array_at_assign_def ram_index_in_bounds)
qed

section \<open>Properties of the status register\<close>

lemma bitset8_roundtrip: "bitset8_to_ulong (bitset8_of_value n) = take_bit 8 n"
proof -
  have "map (bitset8_of_value n) [0..<8] = map (bit n) [0..<8]"
    by (simp add: bitset8_of_value_def)
  then show ?thesis
    by (simp only: bitset8_to_ulong_def horner_sum_bit_eq_take_bit)
qed

lemma test_high_bit: "((v :: uint8_t) AND 0x80 \<noteq> 0x00) = bit v 7"
proof -
  have "(v AND 2 ^ 7 = 0) = (\<not> bit v 7)"
    by (rule and_exp_eq_0_iff_not_bit)
  then show ?thesis by simp
qed

lemma CPUStatus_Set_ok:
  "CPUStatus_Set flag v p = Inr (p\<lparr>flags := (flags p)(CPUStatusFlag_value flag := v)\<rparr>)"
  by (cases flag) (simp_all add: CPUStatus_Set_def bitset8_set_def)

lemma CPUStatus_Get_ok: "CPUStatus_Get flag p = Inr (flags p (CPUStatusFlag_value flag))"
  by (cases flag) (simp_all add: CPUStatus_Get_def bitset8_test_def)

lemma bit_bitset8_to_ulong: "bit (bitset8_to_ulong bs) i = (i < 8 \<and> bs i)"
  by (auto simp add: bitset8_to_ulong_def bit_horner_sum_bit_iff)

lemma bitset8_to_ulong_less: "bitset8_to_ulong bs < 256"
proof -
  have "take_bit 8 (bitset8_to_ulong bs) = bitset8_to_ulong bs"
    by (rule bit_eqI) (auto simp add: bit_take_bit_iff bit_bitset8_to_ulong)
  then have "bitset8_to_ulong bs < 2 ^ 8"
    by (simp only: take_bit_nat_eq_self_iff)
  then show ?thesis by simp
qed

lemma bitset8_of_to_ulong:
  "bitset8_of_value (unat (of_nat (bitset8_to_ulong bs) :: uint8_t)) = (\<lambda>i. i < 8 \<and> bs i)"
proof -
  have "unat (of_nat (bitset8_to_ulong bs) :: uint8_t) = bitset8_to_ulong bs"
    using bitset8_to_ulong_less [of bs] by (simp add: unsigned_of_nat take_bit_nat_eq_self)
  then show ?thesis
    by (auto simp add: bitset8_of_value_def bit_bitset8_to_ulong fun_eq_iff)
qed

lemma bitset8_valid_eq: "bitset8_valid bs \<Longrightarrow> (\<lambda>i. i < 8 \<and> bs i) = bs"
  by (auto simp add: bitset8_valid_def fun_eq_iff not_le [symmetric])

text \<open>
  Claim C8 (status conversion round trip, both directions). Byte to register to byte:
  for every byte \<open>b\<close>, \<open>FromByte(b)\<close> followed by \<open>ToByte()\<close> returns \<open>b\<close>, whatever the
  status register held before. Register to byte to register: for every status register
  \<open>p\<close>, \<open>FromByte(p.ToByte())\<close> gives a register in which every flag, indeed every one of
  the eight bits, reads as in \<open>p\<close>, and it gives \<open>p\<close> itself when \<open>p\<close> is valid. Every
  status register the program can build is valid: the default-constructed one, the
  result of \<open>FromByte\<close>, and the result of \<open>Set\<close> on a valid one.
\<close>

theorem CPUStatus_byte_roundtrip:
  "CPUStatus_ToByte (CPUStatus_FromByte b p) = b
   \<and> bitset8_valid (flags CPUStatus_new)
   \<and> bitset8_valid (flags (CPUStatus_FromByte b p))
   \<and> (\<forall>flag v p'. bitset8_valid (flags p) \<longrightarrow> CPUStatus_Set flag v p = Inr p' \<longrightarrow>
          bitset8_valid (flags p'))
   \<and> (\<forall>flag. CPUStatus_Get flag (CPUStatus_FromByte (CPUStatus_ToByte p) q)
          = CPUStatus_Get flag p)
   \<and> (\<forall>i<8. flags (CPUStatus_FromByte (CPUStatus_ToByte p) q) i = flags p i)
   \<and> (bitset8_valid (flags p) \<longrightarrow> CPUStatus_FromByte (CPUStatus_ToByte p) p = p)"
proof -
  have "CPUStatus_ToByte (CPUStatus_FromByte b p) = of_nat (take_bit 8 (unat b))"
    by (simp add: CPUStatus_ToByte_def CPUStatus_FromByte_def bitset8_roundtrip)
  also have "take_bit 8 (unat b) = unat b"
    using unsigned_less [of b, where ?'a = nat] by (simp add: take_bit_nat_eq_self)
  finally have to_from: "CPUStatus_ToByte (CPUStatus_FromByte b p) = b" by simp
  have new: "bitset8_valid (flags CPUStatus_new)"
    by (simp add: bitset8_valid_def CPUStatus_new_def)
  have from_valid: "bitset8_valid (flags (CPUStatus_FromByte b p))"
    by (simp add: bitset8_valid_def CPUStatus_FromByte_def bitset8_of_value_def)
  have set_valid: "bitset8_valid (flags p')"
    if "bitset8_valid (flags p)" and "CPUStatus_Set flag v p = Inr p'" for flag v p'
    using that by (cases flag) (auto simp add: CPUStatus_Set_ok bitset8_valid_def)
  have bits: "flags (CPUStatus_FromByte (CPUStatus_ToByte p) q) i = flags p i" if "i < 8" for i
    using that by (simp add: CPUStatus_FromByte_def CPUStatus_ToByte_def bitset8_of_to_ulong)
  have get: "CPUStatus_Get flag (CPUStatus_FromByte (CPUStatus_ToByte p) q)
      = CPUStatus_Get flag p" for flag
    by (cases flag) (simp_all add: CPUStatus_Get_ok bits)
  have from_to: "CPUStatus_FromByte (CPUStatus_ToByte p) p = p" if "bitset8_valid (flags p)"
    using bitset8_valid_eq [OF that]
    by (simp add: CPUStatus_FromByte_def CPUStatus_ToByte_def bitset8_of_to_ulong)
  from to_from new from_valid set_valid bits get from_to show ?thesis
    by blast
qed

theorem CPUStatus_byte_roundtrip_witness:
  "bitset8_valid (flags \<lparr>flags = (\<lambda>_. False)(7 := True, 1 := True)\<rparr>)
   \<and> CPUStatus_Set Carry True \<lparr>flags = (\<lambda>_. False)(7 := True, 1 := True)\<rparr>
       = Inr \<lparr>flags = (\<lambda>_. False)(7 := True, 1 := True, 0 := True)\<rparr>
   \<and> bitset8_valid (flags \<lparr>flags = (\<lambda>_. False)(7 := True, 1 := True, 0 := True)\<rparr>)
   \<and> (7::nat) < 8
   \<and> flags (CPUStatus_FromByte
               (CPUStatus_ToByte \<lparr>flags = (\<lambda>_. False)(7 := True, 1 := True)\<rparr>)
               CPUStatus_new) 7 = True
   \<and> CPUStatus_ToByte \<lparr>flags = (\<lambda>_. False)(7 := True, 1 := True)\<rparr> = 0x82
   \<and> CPUStatus_FromByte (CPUStatus_ToByte \<lparr>flags = (\<lambda>_. False)(7 := True, 1 := True)\<rparr>)
         \<lparr>flags = (\<lambda>_. False)(7 := True, 1 := True)\<rparr>
       = \<lparr>flags = (\<lambda>_. False)(7 := True, 1 := True)\<rparr>"
proof -
  let ?p = "\<lparr>flags = (\<lambda>_. False)(7 := True, 1 := True)\<rparr>"
  have h1: "bitset8_valid (flags ?p)"
    by (simp add: bitset8_valid_def)
  have h2: "CPUStatus_Set Carry True ?p
      = Inr \<lparr>flags = (\<lambda>_. False)(7 := True, 1 := True, 0 := True)\<rparr>"
    by (simp add: CPUStatus_Set_ok)
  have h3: "(7::nat) < 8" by simp
  have h4: "CPUStatus_ToByte ?p = 0x82"
    by (simp add: CPUStatus_ToByte_def bitset8_to_ulong_def upt_conv_Cons)
  from CPUStatus_byte_roundtrip [where p = ?p and q = CPUStatus_new] h3
  have c1: "flags (CPUStatus_FromByte (CPUStatus_ToByte ?p) CPUStatus_new) 7 = flags ?p 7"
    by blast
  from CPUStatus_byte_roundtrip [where p = ?p] h1 h2
  have c2: "bitset8_valid (flags \<lparr>flags = (\<lambda>_. False)(7 := True, 1 := True, 0 := True)\<rparr>)"
    by blast
  from CPUStatus_byte_roundtrip [where p = ?p] h1
  have c3: "CPUStatus_FromByte (CPUStatus_ToByte ?p) ?p = ?p"
    by blast
  from h1 h2 h3 h4 c1 c2 c3 show ?thesis
    by simp
qed

section \<open>Properties of the CPU\<close>

lemma LDA_result:
  "LDA cpu = Inr (cpu\<lparr>a_' := operand_' cpu,
                     p_' := (p_' cpu)\<lparr>flags := (flags (p_' cpu))
                        (7 := bit (operand_' cpu) 7, 1 := (operand_' cpu = 0))\<rparr>\<rparr>)"
  by (simp add: LDA_def CPUStatus_Set_ok test_high_bit Let_def)

text \<open>
  Claim C5 (Load-Accumulator). For every operand byte \<open>v\<close>, \<open>LDA\<close> with \<open>operand_ = v\<close>
  returns normally with \<open>A = v\<close>, Negative set iff bit 7 of \<open>v\<close> is set and Zero set iff
  \<open>v = 0\<close>; the flags Overflow, Decimal, InterruptDisable and Carry (indeed every bit
  of the status register other than bits 7 and 1), the registers X, Y, S and PC and the
  pending-cycle counter are unchanged.
\<close>

theorem LDA_loads_accumulator:
  "\<exists>cpu'. LDA (cpu\<lparr>operand_' := v\<rparr>) = Inr cpu'
     \<and> a_' cpu' = v
     \<and> CPUStatus_Get Negative (p_' cpu') = Inr (bit v 7)
     \<and> CPUStatus_Get Zero (p_' cpu') = Inr (v = 0)
     \<and> CPUStatus_Get Overflow (p_' cpu') = CPUStatus_Get Overflow (p_' cpu)
     \<and> CPUStatus_Get Decimal (p_' cpu') = CPUStatus_Get Decimal (p_' cpu)
     \<and> CPUStatus_Get InterruptDisable (p_' cpu') = CPUStatus_Get InterruptDisable (p_' cpu)
     \<and> CPUStatus_Get Carry (p_' cpu') = CPUStatus_Get Carry (p_' cpu)
     \<and> flags (p_' cpu') = (flags (p_' cpu))(7 := bit v 7, 1 := (v = 0))
     \<and> x_' cpu' = x_' cpu \<and> y_' cpu' = y_' cpu \<and> s_' cpu' = s_' cpu \<and> pc_' cpu' = pc_' cpu
     \<and> remaining_cycles_' cpu' = remaining_cycles_' cpu"
  by (simp add: LDA_result CPUStatus_Get_ok)

text \<open>
  Claim C3 (an opcode without an entry in the dispatch table). The claim fails on the
  code: a freshly constructed CPU on a freshly constructed bus is idle and fetches the
  opcode 0x00 at address 0x0000, which has no entry. \<open>operations_[opcode_]\<close> then
  inserts a value-initialised entry, \<open>FetchOperand\<close> reads an operand for its
  addressing mode, and \<open>Clock\<close> calls through the entry's null pointer to member
  function: nothing is reported and the call does not return normally.
\<close>

theorem Clock_unimplemented_opcode:
  "Clock CPUBus_as_Bus CPU_CPU CPUBus_new = Inl NullMemberCall"
  by (simp add: Clock_def CPU_Read_def CPUBus_as_Bus_def CPUBus_Read_def array_at_def
      CPU_RAM_MAX_RANGE_def CPU_RAM_ADDRESS_MASK_def CPU_RAM_SIZE_def CPUBus_new_def
      CPU_CPU_def LoadOperations_def operations_subscript_def OpcodeEntry_value_initialized_def)

lemma reset_vector_word:
  "(word_of_int (push_bit BITS_PER_BYTE (uint (hi :: uint8_t)) OR uint (lo :: uint8_t)) :: uint16_t)
     = push_bit 8 (ucast hi) OR ucast lo"
  by (simp add: BITS_PER_BYTE_def of_int_or_eq of_int_push_bit)

lemma CPUStatus_cleared: "CPUStatus_FromByte 0x00 p = p\<lparr>flags := (\<lambda>_. False)\<rparr>"
  by (simp add: CPUStatus_FromByte_def bitset8_of_value_def)

lemma bitset8_to_ulong_clear: "bitset8_to_ulong (\<lambda>_. False) = 0"
  using bitset8_roundtrip [of 0] by (simp add: bitset8_of_value_def)

lemma Reset_result:
  assumes "Bus_Read bus 0xFFFC b = Inr (lo, b1)" and "Bus_Read bus 0xFFFD b1 = Inr (hi, b2)"
    and "INT_MIN \<le> remaining_cycles_' cpu + 7" and "remaining_cycles_' cpu + 7 \<le> INT_MAX"
  shows "Reset bus cpu b =
           Inr (cpu\<lparr>a_' := 0, x_' := 0, y_' := 0, s_' := 0xFF,
                    p_' := (p_' cpu)\<lparr>flags := (\<lambda>_. False)\<rparr>,
                    pc_' := push_bit 8 (ucast hi) OR ucast lo,
                    remaining_cycles_' := remaining_cycles_' cpu + 7\<rparr>, b2)"
  using assms
  by (simp add: Reset_def CPU_Read_def RESET_VECTOR_LOW_BYTE_def STACK_POINTER_DEFAULT_def
      CPUStatus_cleared reset_vector_word int_result_def Let_def)

text \<open>
  Claim C4 (reset), as amended. For every bus and bus state and every CPU state whose
  pending-cycle counter can take seven more cycles: if the bus returns \<open>lo\<close> at 0xFFFC
  and then \<open>hi\<close> at 0xFFFD, \<open>Reset\<close> returns normally with A, X and Y zero, S equal to
  0xFF, every status flag clear, PC equal to \<open>hi << 8 | lo\<close> and the pending-cycle
  counter increased by 7; the bus is left as the two reads left it. On a \<open>CPUBus\<close>, in
  whatever state, both reads fall outside the RAM window: each is answered with 0 and
  reported, and \<open>Reset\<close> yields PC equal to 0x0000.
\<close>

theorem Reset_loads_vector:
  assumes "Bus_Read bus 0xFFFC b = Inr (lo, b1)" and "Bus_Read bus 0xFFFD b1 = Inr (hi, b2)"
    and "INT_MIN \<le> remaining_cycles_' cpu + 7" and "remaining_cycles_' cpu + 7 \<le> INT_MAX"
  shows "(\<exists>cpu'. Reset bus cpu b = Inr (cpu', b2)
     \<and> a_' cpu' = 0 \<and> x_' cpu' = 0 \<and> y_' cpu' = 0 \<and> s_' cpu' = 0xFF
     \<and> CPUStatus_Get Negative (p_' cpu') = Inr False
     \<and> CPUStatus_Get Overflow (p_' cpu') = Inr False
     \<and> CPUStatus_Get Decimal (p_' cpu') = Inr False
     \<and> CPUStatus_Get InterruptDisable (p_' cpu') = Inr False
     \<and> CPUStatus_Get Zero (p_' cpu') = Inr False
     \<and> CPUStatus_Get Carry (p_' cpu') = Inr False
     \<and> CPUStatus_ToByte (p_' cpu') = 0
     \<and> pc_' cpu' = push_bit 8 (ucast hi) OR ucast lo
     \<and> remaining_cycles_' cpu' = remaining_cycles_' cpu + 7)
   \<and> (\<exists>cpu'. Reset CPUBus_as_Bus cpu cpubus
               = Inr (cpu', log_invalid_address (log_invalid_address cpubus))
        \<and> pc_' cpu' = 0x0000)"
proof -
  have "CPUBus_Read 0xFFFC cpubus = Inr (0, log_invalid_address cpubus)"
    and "CPUBus_Read 0xFFFD (log_invalid_address cpubus)
           = Inr (0, log_invalid_address (log_invalid_address cpubus))"
    by (simp_all add: CPUBus_Read_outside_window CPU_RAM_MAX_RANGE_def)
  then have "\<exists>cpu'. Reset CPUBus_as_Bus cpu cpubus
               = Inr (cpu', log_invalid_address (log_invalid_address cpubus))
        \<and> pc_' cpu' = 0x0000"
    using assms(3,4) by (simp add: Reset_result CPUBus_as_Bus_def)
  then show ?thesis
    by (simp add: Reset_result [OF assms] CPUStatus_Get_ok CPUStatus_ToByte_def
        bitset8_to_ulong_clear)
qed

theorem Reset_loads_vector_witness:
  "Bus_Write \<lparr>Bus_Read = (\<lambda>a m. Inr (m a, m)), Bus_Write = (\<lambda>a v m. Inr (m(a := v)))\<rparr>
      0xFFFC 0x34 (\<lambda>_. 0) = Inr ((\<lambda>_. 0)(0xFFFC := 0x34))
   \<and> Bus_Write \<lparr>Bus_Read = (\<lambda>a m. Inr (m a, m)), Bus_Write = (\<lambda>a v m. Inr (m(a := v)))\<rparr>
      0xFFFD 0x12 ((\<lambda>_. 0)(0xFFFC := 0x34)) = Inr ((\<lambda>_. 0)(0xFFFC := 0x34, 0xFFFD := 0x12))
   \<and> Bus_Read \<lparr>Bus_Read = (\<lambda>a m. Inr (m a, m)), Bus_Write = (\<lambda>a v m. Inr (m(a := v)))\<rparr>
      0xFFFC ((\<lambda>_. 0)(0xFFFC := 0x34, 0xFFFD := 0x12))
     = Inr (0x34, (\<lambda>_. 0)(0xFFFC := 0x34, 0xFFFD := 0x12))
   \<and> Bus_Read \<lparr>Bus_Read = (\<lambda>a m. Inr (m a, m)), Bus_Write = (\<lambda>a v m. Inr (m(a := v)))\<rparr>
      0xFFFD ((\<lambda>_. 0)(0xFFFC := 0x34, 0xFFFD := 0x12))
     = Inr (0x12, (\<lambda>_. 0)(0xFFFC := 0x34, 0xFFFD := 0x12))
   \<and> INT_MIN \<le> remaining_cycles_' CPU_CPU + 7 \<and> remaining_cycles_' CPU_CPU + 7 \<le> INT_MAX
   \<and> (\<exists>cpu'. Reset \<lparr>Bus_Read = (\<lambda>a m. Inr (m a, m)), Bus_Write = (\<lambda>a v m. Inr (m(a := v)))\<rparr>
                 CPU_CPU ((\<lambda>_. 0)(0xFFFC := 0x34, 0xFFFD := 0x12))
               = Inr (cpu', (\<lambda>_. 0)(0xFFFC := 0x34, 0xFFFD := 0x12))
             \<and> pc_' cpu' = 0x1234 \<and> remaining_cycles_' cpu' = 7)"
proof -
  let ?bus = "\<lparr>Bus_Read = (\<lambda>a m. Inr (m a, m)), Bus_Write = (\<lambda>a v m. Inr (m(a := v)))\<rparr>
                :: (uint16_t \<Rightarrow> uint8_t) Bus"
  let ?m = "(\<lambda>_. 0)(0xFFFC := 0x34, 0xFFFD := 0x12) :: uint16_t \<Rightarrow> uint8_t"
  have h1: "Bus_Read ?bus 0xFFFC ?m = Inr (0x34, ?m)" by simp
  have h2: "Bus_Read ?bus 0xFFFD ?m = Inr (0x12, ?m)" by simp
  have h3: "INT_MIN \<le> remaining_cycles_' CPU_CPU + 7"
    by (simp add: CPU_CPU_def LoadOperations_def INT_MIN_def)
  have h4: "remaining_cycles_' CPU_CPU + 7 \<le> INT_MAX"
    by (simp add: CPU_CPU_def LoadOperations_def INT_MAX_def)
  have r: "remaining_cycles_' CPU_CPU = 0"
    by (simp add: CPU_CPU_def LoadOperations_def)
  from Reset_loads_vector [OF h1 h2 h3 h4] h1 h2 h3 h4 r
  show ?thesis by auto
qed

text \<open>
  Claim C4 as stated fails in its last part on the bus of this repository: 0xFFFC and
  0xFFFD lie outside the RAM window of \<open>CPUBus\<close>, so writing 0x34 and 0x12 there changes
  only the diagnostic stream, the reads of \<open>Reset\<close> return 0, and PC is 0x0000 and not
  0x1234.
\<close>

theorem Reset_after_CPUBus_Write:
  "CPUBus_Write 0xFFFC 0x34 CPUBus_new = Inr (log_invalid_address CPUBus_new)
   \<and> CPUBus_Write 0xFFFD 0x12 (log_invalid_address CPUBus_new)
       = Inr (log_invalid_address (log_invalid_address CPUBus_new))
   \<and> Reset CPUBus_as_Bus CPU_CPU (log_invalid_address (log_invalid_address CPUBus_new))
       = Inr (CPU_CPU\<lparr>remaining_cycles_' := 7\<rparr>,
              log_invalid_address (log_invalid_address
                (log_invalid_address (log_invalid_address CPUBus_new))))
   \<and> pc_' (CPU_CPU\<lparr>remaining_cycles_' := 7\<rparr>) = 0x0000
   \<and> pc_' (CPU_CPU\<lparr>remaining_cycles_' := 7\<rparr>)
       \<noteq> word_of_int (push_bit 8 (uint (0x12 :: uint8_t)) OR uint (0x34 :: uint8_t))"
  by (simp add: CPUBus_Write_outside_window CPUBus_Read_outside_window CPU_RAM_MAX_RANGE_def
      Reset_def CPU_Read_def CPUBus_as_Bus_def RESET_VECTOR_LOW_BYTE_def
      STACK_POINTER_DEFAULT_def BITS_PER_BYTE_def int_result_def INT_MIN_def INT_MAX_def
      CPU_CPU_def LoadOperations_def CPUStatus_cleared CPUStatus_new_def)

lemma Clock_mid_instruction:
  "remaining_cycles_' cpu \<noteq> 0 \<Longrightarrow>
   Clock bus cpu b =
     (case int_result (remaining_cycles_' cpu - 1) of
        Inl e \<Rightarrow> Inl e
      | Inr r' \<Rightarrow> Inr (cpu\<lparr>remaining_cycles_' := r'\<rparr>, b))"
  by (simp add: Clock_def)

lemma FetchOperand_any_mode:
  "FetchOperand bus m cpu b =
     (case CPU_Read bus (pc_' cpu) b of
        Inl e \<Rightarrow> Inl e
      | Inr (v, b') \<Rightarrow> Inr (v, cpu\<lparr>pc_' := pc_' cpu + 1\<rparr>, b'))"
  by (cases m) simp

lemma call_operation_Some: "call_operation (Some q) cpu = LDA cpu"
  by (cases q) simp

lemma Clock_idle_success:
  assumes "remaining_cycles_' cpu = 0" and "Clock bus cpu b = Inr (cpu1, b1)"
  shows "\<exists>opc b0 v e.
           Bus_Read bus (pc_' cpu) b = Inr (opc, b0)
         \<and> Bus_Read bus (pc_' cpu + 1) b0 = Inr (v, b1)
         \<and> operations_' cpu opc = Some e
         \<and> operation e = Some LDA_ptr
         \<and> INT_MIN \<le> cycleCount e - 1 \<and> cycleCount e \<le> INT_MAX
         \<and> cpu1 = cpu\<lparr>pc_' := pc_' cpu + 2, opcode_' := opc, operand_' := v, a_' := v,
                p_' := (p_' cpu)\<lparr>flags := (flags (p_' cpu))(7 := bit v 7, 1 := (v = 0))\<rparr>,
                remaining_cycles_' := cycleCount e - 1\<rparr>"
proof -
  from assms obtain opc b0 where rd: "Bus_Read bus (pc_' cpu) b = Inr (opc, b0)"
    by (auto simp add: Clock_def CPU_Read_def split: sum.splits)
  show ?thesis
  proof (cases "operations_' cpu opc")
    case None
    with assms rd show ?thesis
      by (auto simp add: Clock_def CPU_Read_def operations_subscript_def Let_def
          OpcodeEntry_value_initialized_def FetchOperand_any_mode
          split: sum.splits prod.splits)
  next
    case (Some e)
    with assms rd obtain v where rv: "Bus_Read bus (pc_' cpu + 1) b0 = Inr (v, b1)"
      by (auto simp add: Clock_def CPU_Read_def operations_subscript_def Let_def
          FetchOperand_any_mode split: sum.splits prod.splits)
    show ?thesis
    proof (cases "operation e")
      case None
      with assms rd rv Some show ?thesis
        by (simp add: Clock_def CPU_Read_def operations_subscript_def FetchOperand_any_mode
            Let_def)
    next
      case (Some q)
      then have q: "operation e = Some LDA_ptr" by (cases q) simp
      from assms rd rv \<open>operations_' cpu opc = Some e\<close> q
      have "INT_MIN \<le> cycleCount e - 1 \<and> cycleCount e \<le> INT_MAX
          \<and> cpu1 = cpu\<lparr>pc_' := pc_' cpu + 2, opcode_' := opc, operand_' := v, a_' := v,
                p_' := (p_' cpu)\<lparr>flags := (flags (p_' cpu))(7 := bit v 7, 1 := (v = 0))\<rparr>,
                remaining_cycles_' := cycleCount e - 1\<rparr>"
        by (auto simp add: Clock_def CPU_Read_def operations_subscript_def Let_def
            FetchOperand_any_mode call_operation_Some LDA_result int_result_def
            split: if_splits)
      with rd rv \<open>operations_' cpu opc = Some e\<close> q show ?thesis by blast
    qed
  qed
qed

lemma Clock_times_countdown:
  "0 \<le> r \<Longrightarrow> r \<le> INT_MAX \<Longrightarrow> remaining_cycles_' cpu = r \<Longrightarrow> int k \<le> r \<Longrightarrow>
   Clock_times k bus cpu b = Inr (cpu\<lparr>remaining_cycles_' := r - int k\<rparr>, b)"
proof (induction k arbitrary: cpu r)
  case 0
  then show ?case by simp
next
  case (Suc k)
  from Suc.prems have nz: "remaining_cycles_' cpu \<noteq> 0" by simp
  from Suc.prems have "INT_MIN \<le> r - 1" "r - 1 \<le> INT_MAX"
    by (simp_all add: INT_MIN_def)
  with Suc.prems have step: "Clock bus cpu b = Inr (cpu\<lparr>remaining_cycles_' := r - 1\<rparr>, b)"
    by (simp add: Clock_mid_instruction [OF nz] int_result_def)
  from Suc.prems
  have "Clock_times k bus (cpu\<lparr>remaining_cycles_' := r - 1\<rparr>) b =
          Inr (cpu\<lparr>remaining_cycles_' := r - 1\<rparr>\<lparr>remaining_cycles_' := r - 1 - int k\<rparr>, b)"
    by (intro Suc.IH) simp_all
  with step show ?case by (simp add: algebra_simps)
qed

lemma Clock_times_Suc_last:
  "Clock_times (Suc n) bus cpu b =
     (case Clock_times n bus cpu b of
        Inl e \<Rightarrow> Inl e
      | Inr (cpu', b') \<Rightarrow> Clock bus cpu' b')"
proof (induction n arbitrary: cpu b)
  case 0
  show ?case by (simp split: sum.splits prod.splits)
next
  case (Suc n)
  show ?case
  proof (cases "Clock bus cpu b")
    case (Inl e)
    then show ?thesis by simp
  next
    case (Inr r)
    obtain c' b' where r: "r = (c', b')" by (cases r)
    have "Clock_times (Suc (Suc n)) bus cpu b = Clock_times (Suc n) bus c' b'"
      using Inr r by simp
    also have "\<dots> = (case Clock_times n bus c' b' of
                       Inl e \<Rightarrow> Inl e
                     | Inr (cpu', b') \<Rightarrow> Clock bus cpu' b')"
      by (rule Suc.IH)
    also have "Clock_times n bus c' b' = Clock_times (Suc n) bus cpu b"
      using Inr r by simp
    finally show ?thesis .
  qed
qed

lemma Clock_times_numeral:
  "Clock_times (numeral n) bus cpu b =
     (case Clock bus cpu b of
        Inl e \<Rightarrow> Inl e
      | Inr (cpu', b') \<Rightarrow> Clock_times (pred_numeral n) bus cpu' b')"
  by (simp add: numeral_eq_Suc)

lemma const_upd_same: "(\<lambda>_. c)(i := c) = (\<lambda>_. c)"
  by (simp add: fun_eq_iff)

lemmas Clock_eval =
  Clock_def CPU_Read_def CPUBus_as_Bus_def CPUBus_Read_in_window CPU_RAM_MAX_RANGE_def
  CPU_RAM_ADDRESS_MASK_def operations_subscript_def FetchOperand_any_mode
  LDA_result int_result_def INT_MIN_def INT_MAX_def Let_def
  CPU_CPU_def LoadOperations_def CPUStatus_new_def const_upd_same

text \<open>
  Claim C1 (cycle accounting), as amended. A \<open>Clock\<close> call made while the pending-cycle
  counter is not zero changes nothing but the counter, which it decrements: it reads
  nothing from the bus and fetches no opcode. After a \<open>Clock\<close> call that executed, from
  the idle state, an instruction whose entry has base cycle count \<open>c \<ge> 1\<close>, the counter
  is \<open>c - 1\<close>; each of the first \<open>c - 1\<close> subsequent \<open>Clock\<close> calls only decrements
  it, and the \<open>c\<close>-th subsequent call is a call in the idle state: it fetches the opcode
  at the program counter the instruction left, and advances the program counter.
\<close>

theorem Clock_cycle_accounting:
  assumes idle: "remaining_cycles_' cpu = 0"
    and exec: "Clock bus cpu b = Inr (cpu1, b1)"
    and entry: "operations_' cpu (opcode_' cpu1) = Some e"
    and cost: "1 \<le> cycleCount e"
  shows "(\<forall>cpu0 b0 cpu' b'.
            remaining_cycles_' cpu0 \<noteq> 0 \<longrightarrow> Clock bus cpu0 b0 = Inr (cpu', b') \<longrightarrow>
            cpu' = cpu0\<lparr>remaining_cycles_' := remaining_cycles_' cpu0 - 1\<rparr> \<and> b' = b0)
       \<and> remaining_cycles_' cpu1 = cycleCount e - 1
       \<and> (\<forall>k. int k < cycleCount e \<longrightarrow>
              Clock_times k bus cpu1 b1 =
                Inr (cpu1\<lparr>remaining_cycles_' := cycleCount e - 1 - int k\<rparr>, b1))
       \<and> Clock_times (nat (cycleCount e)) bus cpu1 b1 =
           Clock bus (cpu1\<lparr>remaining_cycles_' := 0\<rparr>) b1
       \<and> (\<forall>cpu2 b2.
              Clock_times (nat (cycleCount e)) bus cpu1 b1 = Inr (cpu2, b2) \<longrightarrow>
              (\<exists>b'. Bus_Read bus (pc_' cpu1) b1 = Inr (opcode_' cpu2, b'))
              \<and> pc_' cpu2 = pc_' cpu1 + 2)"
proof -
  have only_idle: "\<forall>cpu0 b0 cpu' b'.
      remaining_cycles_' cpu0 \<noteq> 0 \<longrightarrow> Clock bus cpu0 b0 = Inr (cpu', b') \<longrightarrow>
      cpu' = cpu0\<lparr>remaining_cycles_' := remaining_cycles_' cpu0 - 1\<rparr> \<and> b' = b0"
    by (auto simp add: Clock_mid_instruction int_result_def split: if_splits)
  from Clock_idle_success [OF idle exec] entry
  have rem1: "remaining_cycles_' cpu1 = cycleCount e - 1"
    and le: "cycleCount e \<le> INT_MAX"
    by auto
  from cost le have range: "0 \<le> cycleCount e - 1" "cycleCount e - 1 \<le> INT_MAX"
    by simp_all
  have countdown: "Clock_times k bus cpu1 b1 =
      Inr (cpu1\<lparr>remaining_cycles_' := cycleCount e - 1 - int k\<rparr>, b1)"
    if "int k < cycleCount e" for k
    using that by (intro Clock_times_countdown [OF range rem1]) simp
  have "int (nat (cycleCount e - 1)) < cycleCount e"
    using cost by simp
  from countdown [OF this] cost
  have before: "Clock_times (nat (cycleCount e - 1)) bus cpu1 b1 =
      Inr (cpu1\<lparr>remaining_cycles_' := 0\<rparr>, b1)"
    by simp
  from cost have "nat (cycleCount e) = Suc (nat (cycleCount e - 1))"
    by simp
  then have last: "Clock_times (nat (cycleCount e)) bus cpu1 b1 =
      Clock bus (cpu1\<lparr>remaining_cycles_' := 0\<rparr>) b1"
    by (simp only: Clock_times_Suc_last before sum.case prod.case)
  have fetch: "(\<exists>b'. Bus_Read bus (pc_' cpu1) b1 = Inr (opcode_' cpu2, b'))
      \<and> pc_' cpu2 = pc_' cpu1 + 2"
    if "Clock_times (nat (cycleCount e)) bus cpu1 b1 = Inr (cpu2, b2)" for cpu2 b2
  proof -
    from that last have "Clock bus (cpu1\<lparr>remaining_cycles_' := 0\<rparr>) b1 = Inr (cpu2, b2)"
      by simp
    from Clock_idle_success [OF _ this] show ?thesis
      by auto
  qed
  from only_idle rem1 countdown last fetch show ?thesis
    by blast
qed

theorem Clock_cycle_accounting_witness:
  "remaining_cycles_' CPU_CPU = 0
   \<and> Clock CPUBus_as_Bus CPU_CPU lda_program = Inr (lda_program_cpu1, lda_program)
   \<and> operations_' CPU_CPU (opcode_' lda_program_cpu1)
       = Some \<lparr>addressingMode = Immediate, operation = Some LDA_ptr, cycleCount = 2\<rparr>
   \<and> 1 \<le> cycleCount \<lparr>addressingMode = Immediate, operation = Some LDA_ptr, cycleCount = 2\<rparr>
   \<and> Clock_times 1 CPUBus_as_Bus lda_program_cpu1 lda_program
       = Inr (lda_program_cpu1\<lparr>remaining_cycles_' := 0\<rparr>, lda_program)
   \<and> Clock_times 2 CPUBus_as_Bus lda_program_cpu1 lda_program
       = Clock CPUBus_as_Bus (lda_program_cpu1\<lparr>remaining_cycles_' := 0\<rparr>) lda_program
   \<and> Clock CPUBus_as_Bus (lda_program_cpu1\<lparr>remaining_cycles_' := 0\<rparr>) lda_program
       = Inr (lda_program_cpu1\<lparr>a_' := 0x02, pc_' := 0x0004, operand_' := 0x02,
                remaining_cycles_' := 1\<rparr>, lda_program)
   \<and> remaining_cycles_' lda_program_cpu1 \<noteq> 0
   \<and> Clock CPUBus_as_Bus lda_program_cpu1 lda_program
       = Inr (lda_program_cpu1\<lparr>remaining_cycles_' := 0\<rparr>, lda_program)
   \<and> Bus_Read CPUBus_as_Bus (pc_' lda_program_cpu1) lda_program = Inr (0xA9, lda_program)"
proof -
  let ?e = "\<lparr>addressingMode = Immediate, operation = Some LDA_ptr, cycleCount = 2\<rparr>"
  have h1: "remaining_cycles_' CPU_CPU = 0"
    by (simp add: CPU_CPU_def LoadOperations_def)
  have h2: "Clock CPUBus_as_Bus CPU_CPU lda_program = Inr (lda_program_cpu1, lda_program)"
    by (simp add: Clock_eval lda_program_def lda_program_cpu1_def)
  have h3: "operations_' CPU_CPU (opcode_' lda_program_cpu1) = Some ?e"
    by (simp add: CPU_CPU_def LoadOperations_def lda_program_cpu1_def)
  have h4: "1 \<le> cycleCount ?e"
    by simp
  note acc = Clock_cycle_accounting [OF h1 h2 h3 h4]
  from acc have c3: "int 1 < cycleCount ?e \<longrightarrow>
      Clock_times 1 CPUBus_as_Bus lda_program_cpu1 lda_program =
        Inr (lda_program_cpu1\<lparr>remaining_cycles_' := cycleCount ?e - 1 - int 1\<rparr>, lda_program)"
    by blast
  from acc have c4: "Clock_times (nat (cycleCount ?e)) CPUBus_as_Bus lda_program_cpu1 lda_program
      = Clock CPUBus_as_Bus (lda_program_cpu1\<lparr>remaining_cycles_' := 0\<rparr>) lda_program"
    by blast
  have c5: "Clock CPUBus_as_Bus (lda_program_cpu1\<lparr>remaining_cycles_' := 0\<rparr>) lda_program
       = Inr (lda_program_cpu1\<lparr>a_' := 0x02, pc_' := 0x0004, operand_' := 0x02,
                remaining_cycles_' := 1\<rparr>, lda_program)"
    by (simp add: Clock_eval lda_program_def lda_program_cpu1_def)
  have c6: "remaining_cycles_' lda_program_cpu1 \<noteq> 0"
    by (simp add: lda_program_cpu1_def)
  have c7: "Clock CPUBus_as_Bus lda_program_cpu1 lda_program
       = Inr (lda_program_cpu1\<lparr>remaining_cycles_' := 0\<rparr>, lda_program)"
    by (simp add: Clock_eval lda_program_def lda_program_cpu1_def)
  have c8: "Bus_Read CPUBus_as_Bus (pc_' lda_program_cpu1) lda_program = Inr (0xA9, lda_program)"
    by (simp add: Clock_eval lda_program_def lda_program_cpu1_def)
  from h1 h2 h3 h4 c3 c4 c5 c6 c7 c8 show ?thesis
    by simp
qed

text \<open>
  Claim C1 as stated fails in the number of refused calls: \<open>LDA\<close> has base cycle count
  2, and after the call that executes \<open>LDA #$01\<close> the second subsequent \<open>Clock\<close> call
  has already fetched and executed \<open>LDA #$02\<close>; only one call was refused, not two.
\<close>

theorem Clock_fetches_on_second_subsequent_call:
  "Clock CPUBus_as_Bus CPU_CPU lda_program = Inr (lda_program_cpu1, lda_program)
   \<and> operations_' CPU_CPU (opcode_' lda_program_cpu1)
       = Some \<lparr>addressingMode = Immediate, operation = Some LDA_ptr, cycleCount = 2\<rparr>
   \<and> Clock_times 2 CPUBus_as_Bus lda_program_cpu1 lda_program
       = Inr (lda_program_cpu1\<lparr>a_' := 0x02, pc_' := 0x0004, operand_' := 0x02,
                remaining_cycles_' := 1\<rparr>, lda_program)
   \<and> opcode_' lda_program_cpu1 = 0xA9
   \<and> pc_' lda_program_cpu1 = 0x0002"
  by (simp add: Clock_times_numeral Clock_eval lda_program_def lda_program_cpu1_def)

lemma CPU_CPU_fields:
  "a_' CPU_CPU = 0x00" "x_' CPU_CPU = 0x00" "y_' CPU_CPU = 0x00" "pc_' CPU_CPU = 0x0000"
  "s_' CPU_CPU = 0xFF" "flags (p_' CPU_CPU) = (\<lambda>_. False)" "remaining_cycles_' CPU_CPU = 0"
  "operations_' CPU_CPU =
     [0xA9 \<mapsto> \<lparr>addressingMode = Immediate, operation = Some LDA_ptr, cycleCount = 2\<rparr>]"
  by (simp_all add: CPU_CPU_def LoadOperations_def CPUStatus_new_def)

text \<open>
  Claim C10 (a freshly constructed CPU). After the constructor A, X and Y are zero, PC
  is 0x0000, S is 0xFF, every status flag is clear, no cycle is pending and the opcode
  table holds the entry of 0xA9 only. \<open>Clock\<close> has no check for a preceding \<open>Reset\<close>:
  on the fresh CPU, for every bus, a \<open>Clock\<close> call that returns normally has fetched
  its opcode from address 0x0000, and when the bus holds \<open>LDA #v\<close> at 0x0000 the call
  executes it.
\<close>

theorem CPU_constructed_state:
  "a_' CPU_CPU = 0x00 \<and> x_' CPU_CPU = 0x00 \<and> y_' CPU_CPU = 0x00
   \<and> pc_' CPU_CPU = 0x0000 \<and> s_' CPU_CPU = 0xFF
   \<and> CPUStatus_Get Negative (p_' CPU_CPU) = Inr False
   \<and> CPUStatus_Get Overflow (p_' CPU_CPU) = Inr False
   \<and> CPUStatus_Get Decimal (p_' CPU_CPU) = Inr False
   \<and> CPUStatus_Get InterruptDisable (p_' CPU_CPU) = Inr False
   \<and> CPUStatus_Get Zero (p_' CPU_CPU) = Inr False
   \<and> CPUStatus_Get Carry (p_' CPU_CPU) = Inr False
   \<and> CPUStatus_ToByte (p_' CPU_CPU) = 0x00
   \<and> remaining_cycles_' CPU_CPU = 0
   \<and> operations_' CPU_CPU =
       [0xA9 \<mapsto> \<lparr>addressingMode = Immediate, operation = Some LDA_ptr, cycleCount = 2\<rparr>]
   \<and> (\<forall>cpu' b'. Clock bus CPU_CPU b = Inr (cpu', b') \<longrightarrow>
          (\<exists>b1. Bus_Read bus 0x0000 b = Inr (opcode_' cpu', b1)))
   \<and> (\<forall>v b1 b2.
          Bus_Read bus 0x0000 b = Inr (0xA9, b1) \<longrightarrow> Bus_Read bus 0x0001 b1 = Inr (v, b2) \<longrightarrow>
          (\<exists>cpu'. Clock bus CPU_CPU b = Inr (cpu', b2)
             \<and> opcode_' cpu' = 0xA9 \<and> a_' cpu' = v \<and> pc_' cpu' = 0x0002
             \<and> remaining_cycles_' cpu' = 1))"
proof -
  have fetch: "\<exists>b1. Bus_Read bus 0x0000 b = Inr (opcode_' cpu', b1)"
    if "Clock bus CPU_CPU b = Inr (cpu', b')" for cpu' b'
    using Clock_idle_success [OF CPU_CPU_fields(7) that] by (auto simp add: CPU_CPU_fields)
  have run: "\<exists>cpu'. Clock bus CPU_CPU b = Inr (cpu', b2)
             \<and> opcode_' cpu' = 0xA9 \<and> a_' cpu' = v \<and> pc_' cpu' = 0x0002
             \<and> remaining_cycles_' cpu' = 1"
    if "Bus_Read bus 0x0000 b = Inr (0xA9, b1)" and "Bus_Read bus 0x0001 b1 = Inr (v, b2)"
    for v b1 b2
    using that
    by (simp add: Clock_def CPU_Read_def operations_subscript_def FetchOperand_any_mode
        LDA_result int_result_def INT_MIN_def INT_MAX_def Let_def CPU_CPU_fields)
  from fetch run show ?thesis
    by (simp add: CPU_CPU_fields CPUStatus_Get_ok CPUStatus_ToByte_def bitset8_to_ulong_clear)
qed

theorem CPU_constructed_state_witness:
  "Clock CPUBus_as_Bus CPU_CPU lda_program = Inr (lda_program_cpu1, lda_program)
   \<and> Bus_Read CPUBus_as_Bus 0x0000 lda_program = Inr (0xA9, lda_program)
   \<and> Bus_Read CPUBus_as_Bus 0x0001 lda_program = Inr (0x01, lda_program)
   \<and> (\<exists>b1. Bus_Read CPUBus_as_Bus 0x0000 lda_program = Inr (opcode_' lda_program_cpu1, b1))
   \<and> (\<exists>cpu'. Clock CPUBus_as_Bus CPU_CPU lda_program = Inr (cpu', lda_program)
         \<and> opcode_' cpu' = 0xA9 \<and> a_' cpu' = 0x01 \<and> pc_' cpu' = 0x0002
         \<and> remaining_cycles_' cpu' = 1)"
proof -
  have h1: "Clock CPUBus_as_Bus CPU_CPU lda_program = Inr (lda_program_cpu1, lda_program)"
    by (simp add: Clock_eval lda_program_def lda_program_cpu1_def)
  have h2: "Bus_Read CPUBus_as_Bus 0x0000 lda_program = Inr (0xA9, lda_program)"
    by (simp add: CPUBus_as_Bus_def CPUBus_Read_in_window CPU_RAM_MAX_RANGE_def
        CPU_RAM_ADDRESS_MASK_def lda_program_def)
  have h3: "Bus_Read CPUBus_as_Bus 0x0001 lda_program = Inr (0x01, lda_program)"
    by (simp add: CPUBus_as_Bus_def CPUBus_Read_in_window CPU_RAM_MAX_RANGE_def
        CPU_RAM_ADDRESS_MASK_def lda_program_def)
  from CPU_constructed_state [of CPUBus_as_Bus lda_program] h1 h2 h3
  show ?thesis by blast
qed

end
